theory Spec2Isabelle
  imports Main "HOL-Library.AList"
begin

section \<open>Shared data model\<close>

text \<open>
  The Python exceptions the two modules can raise. Every \<open>ValueError\<close> of the source
  carries a message; the message is kept as a constructor so that the place that raised it
  can be told apart. \<open>KeyError\<close> is what a subscript on a missing key or column raises.
\<close>

datatype message =
    Must_contain_key string       \<comment> \<open>\<open>raw_data must contain '<key>' key\<close>\<close>
  | Missing_required_key string   \<comment> \<open>\<open>Missing required key: <key>\<close>\<close>
  | Same_length                   \<comment> \<open>\<open>All data arrays must have the same length\<close>\<close>
  | Arrays_same_length            \<comment> \<open>raised by the \<open>DataFrame\<close> constructor itself\<close>

datatype error = ValueError message | KeyError string

text \<open>
  A \<open>pandas.DataFrame\<close>, as far as the two modules use one: the length of its index (the
  number of rows) and its columns in order, each a name with one cell per row. A cell is
  an integer or the missing value.
\<close>

datatype cell = IntV int | NaN

record dataframe =
  index_len :: nat
  columns :: "(string \<times> cell list) list"

definition getitem :: "dataframe \<Rightarrow> string \<Rightarrow> error + cell list" where
  "getitem df k = (case map_of (columns df) k of None \<Rightarrow> Inl (KeyError k) | Some c \<Rightarrow> Inr c)"

definition setitem :: "dataframe \<Rightarrow> string \<Rightarrow> cell list \<Rightarrow> dataframe" where
  "setitem df k c = df\<lparr>columns := AList.update k c (columns df)\<rparr>"

definition rows :: "dataframe \<Rightarrow> (string \<times> cell) list list" where
  "rows df = map (\<lambda>i. map (\<lambda>(k, c). (k, c ! i)) (columns df)) [0..<index_len df]"

text \<open>\<open>pd.DataFrame(d)\<close> for a dict \<open>d\<close> of equally long lists; pandas refuses unequal lengths.\<close>

definition DataFrame_of_dict :: "(string \<times> cell list) list \<Rightarrow> error + dataframe" where
  "DataFrame_of_dict d =
     (if card (set (map (\<lambda>(k, c). length c) d)) > 1 then Inl (ValueError Arrays_same_length)
      else Inr \<lparr>index_len = (case d of [] \<Rightarrow> 0 | (k, c) # _ \<Rightarrow> length c), columns = d\<rparr>)"

text \<open>\<open>d.get(k, default)\<close> on a dict.\<close>

definition dict_get :: "('k \<rightharpoonup> 'v) \<Rightarrow> 'k \<Rightarrow> 'v \<Rightarrow> 'v" where
  "dict_get d k dflt = (case d k of None \<Rightarrow> dflt | Some v \<Rightarrow> v)"

section \<open>feature_engineering.py\<close>

text \<open>
  \<open>raw_data\<close> is a dict of four parallel lists. A key that is absent from the dict is a
  field that is \<open>None\<close>. User ids, timestamps and counts are Python integers; activity
  types and product ids are strings.
\<close>

record raw_data =
  user_id :: "int list option"
  activity_type :: "string list option"
  timestamp :: "int list option"
  product_id :: "string list option"

text \<open>The loop of \<open>calculate_total_activities\<close>, the dict \<open>activity_counts\<close> as accumulator.\<close>

fun total_activities_loop :: "(int \<rightharpoonup> int) \<Rightarrow> int list \<Rightarrow> (int \<rightharpoonup> int)" where
  "total_activities_loop activity_counts [] = activity_counts"
| "total_activities_loop activity_counts (uid # rest) =
     total_activities_loop (activity_counts(uid \<mapsto> dict_get activity_counts uid 0 + 1)) rest"

text \<open>
  \<open>not raw_data\<close> holds of the empty dict only, which has no \<open>user_id\<close> key either, so the
  guard is the test for the key.
\<close>

definition calculate_total_activities :: "raw_data \<Rightarrow> error + (int \<rightharpoonup> int)" where
  "calculate_total_activities rd =
     (case user_id rd of
        None \<Rightarrow> Inl (ValueError (Must_contain_key ''user_id''))
      | Some uids \<Rightarrow> Inr (total_activities_loop Map.empty uids))"

text \<open>
  The loop of \<open>calculate_unique_products_viewed\<close> over the zipped columns. For a
  \<open>view\<close> record the user's set is created when missing and the product is added to it;
  the set is there when it is added to, so the subscript cannot fail.
\<close>

fun unique_products_loop ::
  "(int \<rightharpoonup> string set) \<Rightarrow> (int \<times> string \<times> string) list \<Rightarrow> (int \<rightharpoonup> string set)" where
  "unique_products_loop user_products [] = user_products"
| "unique_products_loop user_products ((uid, atype, pid) # rest) =
     unique_products_loop
       (if atype = ''view'' then
          (let up = (case user_products uid of None \<Rightarrow> user_products(uid \<mapsto> {}) | Some _ \<Rightarrow> user_products)
           in (case up uid of None \<Rightarrow> up | Some products \<Rightarrow> up(uid \<mapsto> insert pid products)))
        else user_products)
       rest"

definition calculate_unique_products_viewed :: "raw_data \<Rightarrow> error + (int \<rightharpoonup> int)" where
  "calculate_unique_products_viewed rd =
     (case user_id rd of
        None \<Rightarrow> Inl (ValueError (Must_contain_key ''user_id''))
      | Some uids \<Rightarrow>
     (case activity_type rd of
        None \<Rightarrow> Inl (ValueError (Must_contain_key ''activity_type''))
      | Some atypes \<Rightarrow>
     (case product_id rd of
        None \<Rightarrow> Inl (ValueError (Must_contain_key ''product_id''))
      | Some pids \<Rightarrow>
          (let user_products = unique_products_loop Map.empty (zip uids (zip atypes pids))
           in Inr (\<lambda>uid. map_option (\<lambda>products. int (card products)) (user_products uid))))))"

fun purchase_count_loop :: "(int \<rightharpoonup> int) \<Rightarrow> (int \<times> string) list \<Rightarrow> (int \<rightharpoonup> int)" where
  "purchase_count_loop purchase_counts [] = purchase_counts"
| "purchase_count_loop purchase_counts ((uid, atype) # rest) =
     purchase_count_loop
       (if atype = ''purchase'' then purchase_counts(uid \<mapsto> dict_get purchase_counts uid 0 + 1)
        else purchase_counts)
       rest"

definition calculate_purchase_count :: "raw_data \<Rightarrow> error + (int \<rightharpoonup> int)" where
  "calculate_purchase_count rd =
     (case user_id rd of
        None \<Rightarrow> Inl (ValueError (Must_contain_key ''user_id''))
      | Some uids \<Rightarrow>
     (case activity_type rd of
        None \<Rightarrow> Inl (ValueError (Must_contain_key ''activity_type''))
      | Some atypes \<Rightarrow> Inr (purchase_count_loop Map.empty (zip uids atypes))))"

text \<open>
  The body of \<open>engineer_user_activity_features\<close>: the required keys are tested in the order
  of \<open>required_keys\<close>, then the lengths, then the three aggregates are computed and the
  frame is built over the sorted distinct user ids. The three functions that compute the
  aggregates are parameters of the body, in the places where it calls them, so that one can
  say which of its results are reached without calling them.
\<close>

definition engineer_with ::
  "(raw_data \<Rightarrow> error + (int \<rightharpoonup> int)) \<Rightarrow> (raw_data \<Rightarrow> error + (int \<rightharpoonup> int)) \<Rightarrow>
   (raw_data \<Rightarrow> error + (int \<rightharpoonup> int)) \<Rightarrow> raw_data \<Rightarrow> error + dataframe" where
  "engineer_with total_fn unique_fn purchase_fn rd =
     (case user_id rd of
        None \<Rightarrow> Inl (ValueError (Missing_required_key ''user_id''))
      | Some uids \<Rightarrow>
     (case activity_type rd of
        None \<Rightarrow> Inl (ValueError (Missing_required_key ''activity_type''))
      | Some atypes \<Rightarrow>
     (case timestamp rd of
        None \<Rightarrow> Inl (ValueError (Missing_required_key ''timestamp''))
      | Some stamps \<Rightarrow>
     (case product_id rd of
        None \<Rightarrow> Inl (ValueError (Missing_required_key ''product_id''))
      | Some pids \<Rightarrow>
     (let lengths = [length uids, length atypes, length stamps, length pids] in
      if card (set lengths) > 1 then Inl (ValueError Same_length)
      else
     (case total_fn rd of Inl e \<Rightarrow> Inl e | Inr total_activities \<Rightarrow>
     (case unique_fn rd of Inl e \<Rightarrow> Inl e | Inr unique_products \<Rightarrow>
     (case purchase_fn rd of Inl e \<Rightarrow> Inl e | Inr purchase_counts \<Rightarrow>
     (let unique_users = sorted_list_of_set (set uids) in
      DataFrame_of_dict
        [(''user_id'', map IntV unique_users),
         (''total_activities'', map (\<lambda>uid. IntV (dict_get total_activities uid 0)) unique_users),
         (''unique_products_viewed'', map (\<lambda>uid. IntV (dict_get unique_products uid 0)) unique_users),
         (''purchase_count'', map (\<lambda>uid. IntV (dict_get purchase_counts uid 0)) unique_users)])))))))))"

text \<open>The function itself calls the three functions of this module.\<close>

definition engineer_user_activity_features :: "raw_data \<Rightarrow> error + dataframe" where
  "engineer_user_activity_features rd =
     engineer_with calculate_total_activities calculate_unique_products_viewed
       calculate_purchase_count rd"

section \<open>feature_store_ops.py\<close>

text \<open>
  The dict returned by \<open>define_feature_view\<close>. Each entry of its \<open>features\<close> list is a dict
  with a \<open>name\<close> and a \<open>dtype\<close>; \<open>ttl\<close> is \<open>timedelta(days=1)\<close>, kept as a number of days.
\<close>

record feature_field =
  name :: string
  dtype :: string

record feature_view =
  view_name :: string
  entities :: "string list"
  features :: "feature_field list"
  ttl_days :: int
  source :: string
  description :: string

definition define_feature_view :: feature_view where
  "define_feature_view =
     \<lparr>view_name = ''user_activity_features'',
      entities = [''user_id''],
      features =
        [\<lparr>name = ''total_activities'', dtype = ''int64''\<rparr>,
         \<lparr>name = ''unique_products_viewed'', dtype = ''int64''\<rparr>,
         \<lparr>name = ''purchase_count'', dtype = ''int64''\<rparr>],
      ttl_days = 1,
      source = ''push_source'',
      description = ''User activity aggregated features for ML models''\<rparr>"

text \<open>The default of the \<open>features\<close> argument of both retrieval functions.\<close>

definition features_or_default :: "string list option \<Rightarrow> string list" where
  "features_or_default fs =
     (case fs of
        None \<Rightarrow> [''total_activities'', ''unique_products_viewed'', ''purchase_count'']
      | Some l \<Rightarrow> l)"

text \<open>
  \<open>column * k\<close> on a column of a frame, cell by cell; a missing value stays missing. An
  integer column of an entity table is an \<open>int64\<close> column, and its arithmetic is that of
  64-bit two's complement integers: a product outside the range wraps around without an
  error.
\<close>

definition int64_wrap :: "int \<Rightarrow> int" where
  "int64_wrap x = (x + 2 ^ 63) mod 2 ^ 64 - 2 ^ 63"

definition mul_column :: "cell list \<Rightarrow> int \<Rightarrow> cell list" where
  "mul_column c k = map (\<lambda>v. case v of IntV n \<Rightarrow> IntV (int64_wrap (n * k)) | NaN \<Rightarrow> NaN) c"

text \<open>
  The loop of \<open>simulate_historical_features\<close> over the requested names. A name that is none
  of the three leaves the frame as it is; \<open>result_df['user_id']\<close> is only read for one of the
  three, and raises when the frame has no such column.
\<close>

fun historical_loop :: "dataframe \<Rightarrow> string list \<Rightarrow> error + dataframe" where
  "historical_loop result_df [] = Inr result_df"
| "historical_loop result_df (feature # rest) =
     (if feature = ''total_activities'' then
        (case getitem result_df ''user_id'' of
           Inl e \<Rightarrow> Inl e
         | Inr c \<Rightarrow> historical_loop (setitem result_df feature (mul_column c 10)) rest)
      else if feature = ''unique_products_viewed'' then
        (case getitem result_df ''user_id'' of
           Inl e \<Rightarrow> Inl e
         | Inr c \<Rightarrow> historical_loop (setitem result_df feature (mul_column c 5)) rest)
      else if feature = ''purchase_count'' then
        (case getitem result_df ''user_id'' of
           Inl e \<Rightarrow> Inl e
         | Inr c \<Rightarrow> historical_loop (setitem result_df feature (mul_column c 2)) rest)
      else historical_loop result_df rest)"

definition simulate_historical_features :: "dataframe \<Rightarrow> string list option \<Rightarrow> error + dataframe" where
  "simulate_historical_features entity_df fs = historical_loop entity_df (features_or_default fs)"

text \<open>
  \<open>simulate_online_features\<close>: the inner loop fills \<open>feature_dict\<close>, a dict whose keys keep
  their insertion order; the outer loop reads \<open>entity_row['user_id']\<close>, which raises on a row
  without that key, and appends the dict to \<open>result_data\<close>.
\<close>

fun online_feature_loop :: "(string \<times> int) list \<Rightarrow> int \<Rightarrow> string list \<Rightarrow> (string \<times> int) list" where
  "online_feature_loop feature_dict uid [] = feature_dict"
| "online_feature_loop feature_dict uid (feature # rest) =
     online_feature_loop
       (if feature = ''total_activities'' then AList.update feature (uid * 10) feature_dict
        else if feature = ''unique_products_viewed'' then AList.update feature (uid * 5) feature_dict
        else if feature = ''purchase_count'' then AList.update feature (uid * 2) feature_dict
        else feature_dict)
       uid rest"

fun online_loop ::
  "(string \<times> int) list list \<Rightarrow> (string \<rightharpoonup> int) list \<Rightarrow> string list \<Rightarrow> error + (string \<times> int) list list" where
  "online_loop result_data [] fs = Inr result_data"
| "online_loop result_data (entity_row # rest) fs =
     (case entity_row ''user_id'' of
        None \<Rightarrow> Inl (KeyError ''user_id'')
      | Some uid \<Rightarrow>
          online_loop (result_data @ [online_feature_loop [(''user_id'', uid)] uid fs]) rest fs)"

text \<open>
  \<open>pd.DataFrame(records)\<close> for a list of dicts: one row per dict, the columns are the keys in
  the order in which they first occur, and a dict without a key leaves a missing value.
\<close>

definition DataFrame_of_records :: "(string \<times> int) list list \<Rightarrow> dataframe" where
  "DataFrame_of_records rs =
     \<lparr>index_len = length rs,
      columns =
        map (\<lambda>k. (k, map (\<lambda>r. case map_of r k of None \<Rightarrow> NaN | Some v \<Rightarrow> IntV v) rs))
          (rev (remdups (rev (concat (map (map fst) rs)))))\<rparr>"

definition simulate_online_features :: "(string \<rightharpoonup> int) list \<Rightarrow> string list option \<Rightarrow> error + dataframe" where
  "simulate_online_features entity_rows fs =
     (case online_loop [] entity_rows (features_or_default fs) of
        Inl e \<Rightarrow> Inl e
      | Inr result_data \<Rightarrow> Inr (DataFrame_of_records result_data))"

section \<open>Vocabulary of the specification\<close>

text \<open>A batch in which all four sequences are present.\<close>

definition batch :: "int list \<Rightarrow> string list \<Rightarrow> int list \<Rightarrow> string list \<Rightarrow> raw_data" where
  "batch uids atypes stamps pids =
     \<lparr>user_id = Some uids, activity_type = Some atypes, timestamp = Some stamps, product_id = Some pids\<rparr>"

text \<open>Well-formed input: all four sequences present and of equal length.\<close>

definition well_formed :: "raw_data \<Rightarrow> bool" where
  "well_formed rd =
     (case user_id rd of None \<Rightarrow> False | Some uids \<Rightarrow>
     (case activity_type rd of None \<Rightarrow> False | Some atypes \<Rightarrow>
     (case timestamp rd of None \<Rightarrow> False | Some stamps \<Rightarrow>
     (case product_id rd of None \<Rightarrow> False | Some pids \<Rightarrow>
        length atypes = length uids \<and> length stamps = length uids \<and> length pids = length uids))))"

text \<open>
  The input-shape errors: the two messages of the validation block at the head of
  \<open>engineer_user_activity_features\<close>. The messages of the three helper functions and of
  the frame constructor are not among them.
\<close>

definition shape_error :: "error \<Rightarrow> bool" where
  "shape_error e =
     (e = ValueError Same_length \<or>
      e \<in> (\<lambda>k. ValueError (Missing_required_key k)) `
            {''user_id'', ''activity_type'', ''timestamp'', ''product_id''})"

text \<open>
  The three aggregates as the specification words them, over record positions: the number of
  records of a user, the number of its \<open>purchase\<close> records, and the number of distinct
  product ids among its \<open>view\<close> records.
\<close>

definition total_of :: "int list \<Rightarrow> int \<Rightarrow> int" where
  "total_of uids u = int (card {i. i < length uids \<and> uids ! i = u})"

definition purchases_of :: "int list \<Rightarrow> string list \<Rightarrow> int \<Rightarrow> int" where
  "purchases_of uids atypes u =
     int (card {i. i < length uids \<and> uids ! i = u \<and> atypes ! i = ''purchase''})"

definition viewed_of :: "int list \<Rightarrow> string list \<Rightarrow> string list \<Rightarrow> int \<Rightarrow> int" where
  "viewed_of uids atypes pids u =
     int (card ((\<lambda>i. pids ! i) ` {i. i < length uids \<and> uids ! i = u \<and> atypes ! i = ''view''}))"

text \<open>The set a user has in \<open>user_products\<close>, empty for a user without an entry.\<close>

definition products_of :: "(int \<rightharpoonup> string set) \<Rightarrow> int \<Rightarrow> string set" where
  "products_of m u = (case m u of None \<Rightarrow> {} | Some s \<Rightarrow> s)"


text \<open>
  The factor by which the two retrieval simulations multiply the user id, for each of the three
  feature names they know; any other name has none.
\<close>

definition simulated_factor :: "string \<Rightarrow> int option" where
  "simulated_factor f =
     (if f = ''total_activities'' then Some 10
      else if f = ''unique_products_viewed'' then Some 5
      else if f = ''purchase_count'' then Some 2
      else None)"

section \<open>The three aggregation loops\<close>

lemma dict_get_empty: "dict_get Map.empty k d = d"
  by (simp add: dict_get_def)

lemma products_of_empty: "products_of Map.empty u = {}"
  by (simp add: products_of_def)

lemma total_activities_loop_get:
  "dict_get (total_activities_loop m uids) u 0 = dict_get m u 0 + int (length (filter (\<lambda>v. v = u) uids))"
  by (induction uids arbitrary: m) (auto simp: dict_get_def)

lemma purchase_count_loop_get:
  "dict_get (purchase_count_loop m zs) u 0 =
     dict_get m u 0 + int (length (filter (\<lambda>(v, a). v = u \<and> a = ''purchase'') zs))"
  by (induction m zs rule: purchase_count_loop.induct) (auto simp: dict_get_def)

lemma unique_products_loop_products:
  "products_of (unique_products_loop m zs) u = products_of m u \<union> {p. (u, ''view'', p) \<in> set zs}"
  by (induction m zs rule: unique_products_loop.induct)
     (auto simp: products_of_def Let_def split: option.splits if_splits)

lemma filter_zip_card:
  "length (filter P (zip xs ys)) = card {i. i < length xs \<and> i < length ys \<and> P (xs ! i, ys ! i)}"
proof -
  have "{i. i < length (zip xs ys) \<and> P (zip xs ys ! i)} =
        {i. i < length xs \<and> i < length ys \<and> P (xs ! i, ys ! i)}"
    by auto
  then show ?thesis by (simp add: length_filter_conv_card)
qed

lemma view_products_index:
  "length atypes = length uids \<Longrightarrow> length pids = length uids \<Longrightarrow>
   {p. (u, ''view'', p) \<in> set (zip uids (zip atypes pids))} =
   (\<lambda>i. pids ! i) ` {i. i < length uids \<and> uids ! i = u \<and> atypes ! i = ''view''}"
  by (auto simp: in_set_zip image_iff)

lemma total_activities_get:
  "dict_get (total_activities_loop Map.empty uids) u 0 = total_of uids u"
  by (simp add: total_activities_loop_get total_of_def length_filter_conv_card dict_get_empty)

lemma purchase_count_get:
  assumes "length atypes = length uids"
  shows "dict_get (purchase_count_loop Map.empty (zip uids atypes)) u 0 = purchases_of uids atypes u"
proof -
  have "{i. i < length uids \<and> i < length atypes \<and>
            (case (uids ! i, atypes ! i) of (v, a) \<Rightarrow> v = u \<and> a = ''purchase'')}
        = {i. i < length uids \<and> uids ! i = u \<and> atypes ! i = ''purchase''}"
    using assms by auto
  then show ?thesis
    by (simp add: purchase_count_loop_get filter_zip_card purchases_of_def dict_get_empty)
qed

lemma unique_products_get:
  assumes "length atypes = length uids" "length pids = length uids"
  shows "dict_get (\<lambda>uid. map_option (\<lambda>products. int (card products))
                     (unique_products_loop Map.empty (zip uids (zip atypes pids)) uid)) u 0
         = viewed_of uids atypes pids u"
proof -
  let ?m = "unique_products_loop Map.empty (zip uids (zip atypes pids))"
  have "products_of ?m u =
          (\<lambda>i. pids ! i) ` {i. i < length uids \<and> uids ! i = u \<and> atypes ! i = ''view''}"
    using assms by (simp add: unique_products_loop_products view_products_index products_of_empty)
  moreover have "dict_get (\<lambda>uid. map_option (\<lambda>products. int (card products)) (?m uid)) u 0
      = int (card (products_of ?m u))"
    by (simp add: dict_get_def products_of_def split: option.splits)
  ultimately show ?thesis by (simp add: viewed_of_def)
qed

section \<open>The engineered frame\<close>

lemma engineer_well_formed:
  assumes "length atypes = length uids" "length stamps = length uids" "length pids = length uids"
  shows "engineer_user_activity_features (batch uids atypes stamps pids) =
     Inr \<lparr>index_len = card (set uids),
          columns =
            [(''user_id'', map IntV (sorted_list_of_set (set uids))),
             (''total_activities'',
              map (\<lambda>u. IntV (total_of uids u)) (sorted_list_of_set (set uids))),
             (''unique_products_viewed'',
              map (\<lambda>u. IntV (viewed_of uids atypes pids u)) (sorted_list_of_set (set uids))),
             (''purchase_count'',
              map (\<lambda>u. IntV (purchases_of uids atypes u)) (sorted_list_of_set (set uids)))]\<rparr>"
  using assms
  by (simp add: engineer_user_activity_features_def engineer_with_def batch_def
      calculate_total_activities_def
      calculate_unique_products_viewed_def calculate_purchase_count_def DataFrame_of_dict_def
      total_activities_get purchase_count_get unique_products_get Let_def)

lemma engineer_rows:
  assumes "length atypes = length uids" "length stamps = length uids" "length pids = length uids"
  shows "\<exists>df. engineer_user_activity_features (batch uids atypes stamps pids) = Inr df \<and>
     rows df = map (\<lambda>u. [(''user_id'', IntV u),
                          (''total_activities'', IntV (total_of uids u)),
                          (''unique_products_viewed'', IntV (viewed_of uids atypes pids u)),
                          (''purchase_count'', IntV (purchases_of uids atypes u))])
                 (sorted_list_of_set (set uids))"
  unfolding engineer_well_formed[OF assms] rows_def
  apply (simp del: length_sorted_list_of_set sorted_list_of_set.length_sorted_key_list_of_set)
  apply (rule nth_equalityI)
   apply simp
  apply simp
  done

lemma well_formed_batch:
  "well_formed rd \<longleftrightarrow> (\<exists>uids atypes stamps pids. rd = batch uids atypes stamps pids \<and>
      length atypes = length uids \<and> length stamps = length uids \<and> length pids = length uids)"
proof
  assume "well_formed rd"
  then obtain uids atypes stamps pids where
    f: "user_id rd = Some uids" "activity_type rd = Some atypes" "timestamp rd = Some stamps"
       "product_id rd = Some pids"
    and l: "length atypes = length uids \<and> length stamps = length uids \<and> length pids = length uids"
    by (auto simp: well_formed_def split: option.splits)
  from f have "rd = batch uids atypes stamps pids"
    by (cases rd) (simp add: batch_def)
  with l show "\<exists>uids atypes stamps pids. rd = batch uids atypes stamps pids \<and>
      length atypes = length uids \<and> length stamps = length uids \<and> length pids = length uids"
    by blast
next
  assume "\<exists>uids atypes stamps pids. rd = batch uids atypes stamps pids \<and>
      length atypes = length uids \<and> length stamps = length uids \<and> length pids = length uids"
  then show "well_formed rd" by (auto simp: well_formed_def batch_def)
qed

lemma card_lengths:
  "Suc 0 < card {a, b, c, d :: nat} \<longleftrightarrow> \<not> (b = a \<and> c = a \<and> d = a)"
proof (cases "b = a \<and> c = a \<and> d = a")
  case True
  then show ?thesis by simp
next
  case False
  then obtain x where x: "x \<in> {a, b, c, d}" "x \<noteq> a" by auto
  have "card {a, x} \<le> card {a, b, c, d}"
    by (rule card_mono) (use x in auto)
  with x False show ?thesis by simp
qed

lemma engineer_with_ill_formed:
  assumes "\<not> well_formed rd"
  shows "\<exists>e. shape_error e \<and> (\<forall>t u p. engineer_with t u p rd = Inl e)"
  using assms
  by (auto simp: well_formed_def engineer_with_def shape_error_def card_lengths
      simp del: card_insert_if split: option.splits)

lemma engineer_ill_formed:
  assumes "\<not> well_formed rd"
  shows "\<exists>e. engineer_user_activity_features rd = Inl e \<and> shape_error e"
  using engineer_with_ill_formed[OF assms]
  by (auto simp: engineer_user_activity_features_def)

lemma aggregate_bounds:
  "0 \<le> total_of uids u" "0 \<le> viewed_of uids atypes pids u" "0 \<le> purchases_of uids atypes u"
  "viewed_of uids atypes pids u + purchases_of uids atypes u \<le> total_of uids u"
proof -
  let ?T = "{i. i < length uids \<and> uids ! i = u}"
  let ?V = "{i. i < length uids \<and> uids ! i = u \<and> atypes ! i = ''view''}"
  let ?P = "{i. i < length uids \<and> uids ! i = u \<and> atypes ! i = ''purchase''}"
  have fin: "finite ?T" "finite ?V" "finite ?P" by simp_all
  have "card ((\<lambda>i. pids ! i) ` ?V) \<le> card ?V" by (rule card_image_le) simp
  moreover have "card ?V + card ?P = card (?V \<union> ?P)"
    by (rule card_Un_disjoint[symmetric]) (use fin in auto)
  moreover have "card (?V \<union> ?P) \<le> card ?T"
    by (rule card_mono) (use fin in auto)
  ultimately have "card ((\<lambda>i. pids ! i) ` ?V) + card ?P \<le> card ?T" by linarith
  then show "viewed_of uids atypes pids u + purchases_of uids atypes u \<le> total_of uids u"
    unfolding viewed_of_def purchases_of_def total_of_def by linarith
qed (simp_all add: total_of_def viewed_of_def purchases_of_def)

lemma no_view_zero:
  assumes "(u, ''view'') \<notin> set (zip uids atypes)" "length atypes = length uids"
  shows "viewed_of uids atypes pids u = 0"
proof -
  have "{i. i < length uids \<and> uids ! i = u \<and> atypes ! i = ''view''} = {}"
    using assms by (auto simp: in_set_zip)
  then show ?thesis by (simp add: viewed_of_def)
qed

lemma no_purchase_zero:
  assumes "(u, ''purchase'') \<notin> set (zip uids atypes)" "length atypes = length uids"
  shows "purchases_of uids atypes u = 0"
proof -
  have "{i. i < length uids \<and> uids ! i = u \<and> atypes ! i = ''purchase''} = {}"
    using assms by (auto simp: in_set_zip)
  then show ?thesis by (simp add: purchases_of_def)
qed


text \<open>
  Claim C1. On a well-formed batch the function returns a frame with exactly one row per
  distinct user id of the batch: the user ids of the rows are a duplicate-free enumeration of
  the ids that occur in the batch. In the row of a user, \<open>total_activities\<close> is the number
  of records with that id and \<open>purchase_count\<close> the number of its records of type
  \<open>purchase\<close>. A count over an empty set of records is the value 0, not a missing one: a
  user without any purchase record has \<open>purchase_count\<close> 0, and a user without any view
  record has \<open>unique_products_viewed\<close> 0.
\<close>

theorem engineer_one_row_per_user:
  assumes "length atypes = length uids" "length stamps = length uids" "length pids = length uids"
  shows "\<exists>df ids. engineer_user_activity_features (batch uids atypes stamps pids) = Inr df \<and>
     distinct ids \<and> set ids = set uids \<and>
     map (\<lambda>r. (map_of r ''user_id'', map_of r ''total_activities'', map_of r ''purchase_count''))
         (rows df) =
       map (\<lambda>u. (Some (IntV u), Some (IntV (total_of uids u)),
                  Some (IntV (purchases_of uids atypes u)))) ids \<and>
     (\<forall>u\<in>set uids. (u, ''purchase'') \<notin> set (zip uids atypes) \<longrightarrow>
        (\<exists>r\<in>set (rows df). map_of r ''user_id'' = Some (IntV u) \<and>
                             map_of r ''purchase_count'' = Some (IntV 0))) \<and>
     (\<forall>u\<in>set uids. (u, ''view'') \<notin> set (zip uids atypes) \<longrightarrow>
        (\<exists>r\<in>set (rows df). map_of r ''user_id'' = Some (IntV u) \<and>
                             map_of r ''unique_products_viewed'' = Some (IntV 0)))"
proof -
  let ?ids = "sorted_list_of_set (set uids)"
  from engineer_rows[OF assms] obtain df where
    df: "engineer_user_activity_features (batch uids atypes stamps pids) = Inr df"
    and r: "rows df = map (\<lambda>u. [(''user_id'', IntV u),
                          (''total_activities'', IntV (total_of uids u)),
                          (''unique_products_viewed'', IntV (viewed_of uids atypes pids u)),
                          (''purchase_count'', IntV (purchases_of uids atypes u))]) ?ids"
    by blast
  have "distinct ?ids" "set ?ids = set uids" by simp_all
  moreover have "map (\<lambda>r. (map_of r ''user_id'', map_of r ''total_activities'', map_of r ''purchase_count''))
         (rows df) =
       map (\<lambda>u. (Some (IntV u), Some (IntV (total_of uids u)),
                  Some (IntV (purchases_of uids atypes u)))) ?ids"
    by (simp add: r)
  moreover have "\<forall>u\<in>set uids. (u, ''purchase'') \<notin> set (zip uids atypes) \<longrightarrow>
        (\<exists>r\<in>set (rows df). map_of r ''user_id'' = Some (IntV u) \<and>
                             map_of r ''purchase_count'' = Some (IntV 0))"
    by (simp add: r no_purchase_zero assms(1))
  moreover have "\<forall>u\<in>set uids. (u, ''view'') \<notin> set (zip uids atypes) \<longrightarrow>
        (\<exists>r\<in>set (rows df). map_of r ''user_id'' = Some (IntV u) \<and>
                             map_of r ''unique_products_viewed'' = Some (IntV 0))"
    by (simp add: r no_view_zero assms(1))
  ultimately show ?thesis using df by blast
qed

theorem engineer_one_row_per_user_witness:
  "length [''view'', ''view'', ''purchase'', ''view'', ''view''] = length [1, 1, 1, 2, 2 :: int] \<and>
   length [10, 20, 30, 40, 50 :: int] = length [1, 1, 1, 2, 2 :: int] \<and>
   length [''A'', ''B'', ''A'', ''C'', ''D''] = length [1, 1, 1, 2, 2 :: int] \<and>
   (\<exists>df ids. engineer_user_activity_features
       (batch [1, 1, 1, 2, 2] [''view'', ''view'', ''purchase'', ''view'', ''view'']
          [10, 20, 30, 40, 50] [''A'', ''B'', ''A'', ''C'', ''D'']) = Inr df \<and>
     distinct ids \<and> set ids = set [1, 1, 1, 2, 2] \<and>
     map (\<lambda>r. (map_of r ''user_id'', map_of r ''total_activities'', map_of r ''purchase_count''))
         (rows df) =
       map (\<lambda>u. (Some (IntV u), Some (IntV (total_of [1, 1, 1, 2, 2] u)),
                  Some (IntV (purchases_of [1, 1, 1, 2, 2]
                     [''view'', ''view'', ''purchase'', ''view'', ''view''] u)))) ids \<and>
     (\<forall>u\<in>set [1, 1, 1, 2, 2].
        (u, ''purchase'') \<notin> set (zip [1, 1, 1, 2, 2] [''view'', ''view'', ''purchase'', ''view'', ''view'']) \<longrightarrow>
        (\<exists>r\<in>set (rows df). map_of r ''user_id'' = Some (IntV u) \<and>
                             map_of r ''purchase_count'' = Some (IntV 0))) \<and>
     (\<forall>u\<in>set [1, 1, 1, 2, 2].
        (u, ''view'') \<notin> set (zip [1, 1, 1, 2, 2] [''view'', ''view'', ''purchase'', ''view'', ''view'']) \<longrightarrow>
        (\<exists>r\<in>set (rows df). map_of r ''user_id'' = Some (IntV u) \<and>
                             map_of r ''unique_products_viewed'' = Some (IntV 0))))"
proof -
  have h1: "length [''view'', ''view'', ''purchase'', ''view'', ''view''] = length [1, 1, 1, 2, 2 :: int]"
    by simp
  have h2: "length [10, 20, 30, 40, 50 :: int] = length [1, 1, 1, 2, 2 :: int]"
    by simp
  have h3: "length [''A'', ''B'', ''A'', ''C'', ''D''] = length [1, 1, 1, 2, 2 :: int]"
    by simp
  show ?thesis
    by (rule conjI[OF h1 conjI[OF h2 conjI[OF h3 engineer_one_row_per_user[OF h1 h2 h3]]]])
qed


text \<open>
  Claim C2. On a well-formed batch, the \<open>unique_products_viewed\<close> value in the row of a
  user is the number of distinct product ids among the records of that user whose type is
  \<open>view\<close>: the cardinality of a set, so that a product viewed several times counts once
  and the product of a record of another type does not count.
\<close>

theorem engineer_unique_products_viewed:
  assumes "length atypes = length uids" "length stamps = length uids" "length pids = length uids"
  shows "\<exists>df ids. engineer_user_activity_features (batch uids atypes stamps pids) = Inr df \<and>
     distinct ids \<and> set ids = set uids \<and>
     map (\<lambda>r. (map_of r ''user_id'', map_of r ''unique_products_viewed'')) (rows df) =
       map (\<lambda>u. (Some (IntV u),
                  Some (IntV (int (card ((\<lambda>i. pids ! i) `
                     {i. i < length uids \<and> uids ! i = u \<and> atypes ! i = ''view''})))))) ids"
proof -
  let ?ids = "sorted_list_of_set (set uids)"
  from engineer_rows[OF assms] obtain df where
    df: "engineer_user_activity_features (batch uids atypes stamps pids) = Inr df"
    and r: "rows df = map (\<lambda>u. [(''user_id'', IntV u),
                          (''total_activities'', IntV (total_of uids u)),
                          (''unique_products_viewed'', IntV (viewed_of uids atypes pids u)),
                          (''purchase_count'', IntV (purchases_of uids atypes u))]) ?ids"
    by blast
  have "distinct ?ids" "set ?ids = set uids" by simp_all
  moreover have "map (\<lambda>r. (map_of r ''user_id'', map_of r ''unique_products_viewed'')) (rows df) =
       map (\<lambda>u. (Some (IntV u),
                  Some (IntV (int (card ((\<lambda>i. pids ! i) `
                     {i. i < length uids \<and> uids ! i = u \<and> atypes ! i = ''view''})))))) ?ids"
    by (simp add: r viewed_of_def)
  ultimately show ?thesis using df by blast
qed

theorem engineer_unique_products_viewed_witness:
  "length [''view'', ''view'', ''purchase'', ''view''] = length [7, 7, 7, 7 :: int] \<and>
   length [10, 20, 30, 40 :: int] = length [7, 7, 7, 7 :: int] \<and>
   length [''A'', ''A'', ''B'', ''C''] = length [7, 7, 7, 7 :: int] \<and>
   (\<exists>df ids. engineer_user_activity_features
       (batch [7, 7, 7, 7] [''view'', ''view'', ''purchase'', ''view'']
          [10, 20, 30, 40] [''A'', ''A'', ''B'', ''C'']) = Inr df \<and>
     distinct ids \<and> set ids = set [7, 7, 7, 7] \<and>
     map (\<lambda>r. (map_of r ''user_id'', map_of r ''unique_products_viewed'')) (rows df) =
       map (\<lambda>u. (Some (IntV u),
                  Some (IntV (int (card ((\<lambda>i. [''A'', ''A'', ''B'', ''C''] ! i) `
                     {i. i < length [7, 7, 7, 7 :: int] \<and> [7, 7, 7, 7] ! i = u \<and>
                         [''view'', ''view'', ''purchase'', ''view''] ! i = ''view''})))))) ids)"
proof -
  have h1: "length [''view'', ''view'', ''purchase'', ''view''] = length [7, 7, 7, 7 :: int]"
    by simp
  have h2: "length [10, 20, 30, 40 :: int] = length [7, 7, 7, 7 :: int]"
    by simp
  have h3: "length [''A'', ''A'', ''B'', ''C''] = length [7, 7, 7, 7 :: int]"
    by simp
  show ?thesis
    by (rule conjI[OF h1 conjI[OF h2 conjI[OF h3 engineer_unique_products_viewed[OF h1 h2 h3]]]])
qed

text \<open>
  Claim C3. The function fails exactly on the batches that are not well-formed (a required
  sequence absent, or unequal lengths), and every failure is one of the two errors of the
  validation block: no helper, and no frame construction, fails on a well-formed batch. A
  failure is a result without a frame. The error is raised before any aggregation work: on a
  batch that is not well-formed the body returns that error whatever the three aggregation
  functions are, also when they would fail themselves, so none of them has been called.
\<close>

theorem engineer_shape_error_iff:
  "((\<exists>e. engineer_user_activity_features rd = Inl e) \<longleftrightarrow> \<not> well_formed rd) \<and>
   (\<forall>e. engineer_user_activity_features rd = Inl e \<longrightarrow> shape_error e) \<and>
   (\<not> well_formed rd \<longrightarrow>
      (\<forall>total_fn unique_fn purchase_fn.
         engineer_with total_fn unique_fn purchase_fn rd = engineer_user_activity_features rd))"
proof (cases "well_formed rd")
  case True
  then obtain uids atypes stamps pids where "rd = batch uids atypes stamps pids"
      "length atypes = length uids" "length stamps = length uids" "length pids = length uids"
    unfolding well_formed_batch by blast
  then have "\<exists>df. engineer_user_activity_features rd = Inr df"
    by (simp add: engineer_well_formed)
  with True show ?thesis by auto
next
  case False
  from engineer_with_ill_formed[OF this] obtain e where
    e: "shape_error e" "\<forall>t u p. engineer_with t u p rd = Inl e"
    by blast
  then have "engineer_user_activity_features rd = Inl e"
    by (simp add: engineer_user_activity_features_def)
  with e False show ?thesis by auto
qed

theorem engineer_shape_error_iff_witness:
  "\<not> well_formed (batch [1, 2, 3] [''view'', ''click''] [10, 20, 30] [''A'', ''B'', ''C'']) \<and>
   (\<exists>e. engineer_user_activity_features
           (batch [1, 2, 3] [''view'', ''click''] [10, 20, 30] [''A'', ''B'', ''C'']) = Inl e \<and>
        shape_error e) \<and>
   engineer_with (\<lambda>rd. Inl (KeyError ''total'')) (\<lambda>rd. Inl (KeyError ''unique''))
       (\<lambda>rd. Inl (KeyError ''purchase''))
       (batch [1, 2, 3] [''view'', ''click''] [10, 20, 30] [''A'', ''B'', ''C'']) =
     engineer_user_activity_features
       (batch [1, 2, 3] [''view'', ''click''] [10, 20, 30] [''A'', ''B'', ''C'']) \<and>
   well_formed (batch [5] [''click''] [10] [''H'']) \<and>
   (\<nexists>e. engineer_user_activity_features (batch [5] [''click''] [10] [''H'']) = Inl e)"
proof -
  have n: "\<not> well_formed (batch [1, 2, 3] [''view'', ''click''] [10, 20, 30] [''A'', ''B'', ''C''])"
    by (simp add: well_formed_def batch_def)
  have w: "well_formed (batch [5] [''click''] [10] [''H''])"
    by (simp add: well_formed_def batch_def)
  note a = engineer_shape_error_iff[of "batch [1, 2, 3] [''view'', ''click''] [10, 20, 30] [''A'', ''B'', ''C'']"]
  note b = engineer_shape_error_iff[of "batch [5] [''click''] [10] [''H'']"]
  from a n have "\<exists>e. engineer_user_activity_features
           (batch [1, 2, 3] [''view'', ''click''] [10, 20, 30] [''A'', ''B'', ''C'']) = Inl e \<and>
        shape_error e"
    by blast
  moreover from a n have "engineer_with (\<lambda>rd. Inl (KeyError ''total'')) (\<lambda>rd. Inl (KeyError ''unique''))
       (\<lambda>rd. Inl (KeyError ''purchase''))
       (batch [1, 2, 3] [''view'', ''click''] [10, 20, 30] [''A'', ''B'', ''C'']) =
     engineer_user_activity_features
       (batch [1, 2, 3] [''view'', ''click''] [10, 20, 30] [''A'', ''B'', ''C''])"
    by simp
  moreover from b w have "\<nexists>e. engineer_user_activity_features (batch [5] [''click''] [10] [''H'']) = Inl e"
    by blast
  ultimately show ?thesis using n w by blast
qed

text \<open>
  Claim C4. On a well-formed batch the rows of the returned frame are in ascending order of
  their user id.
\<close>

theorem engineer_rows_sorted:
  assumes "length atypes = length uids" "length stamps = length uids" "length pids = length uids"
  shows "\<exists>df ids. engineer_user_activity_features (batch uids atypes stamps pids) = Inr df \<and>
     map (\<lambda>r. map_of r ''user_id'') (rows df) = map (\<lambda>u. Some (IntV u)) ids \<and>
     sorted ids"
proof -
  let ?ids = "sorted_list_of_set (set uids)"
  from engineer_rows[OF assms] obtain df where
    df: "engineer_user_activity_features (batch uids atypes stamps pids) = Inr df"
    and r: "rows df = map (\<lambda>u. [(''user_id'', IntV u),
                          (''total_activities'', IntV (total_of uids u)),
                          (''unique_products_viewed'', IntV (viewed_of uids atypes pids u)),
                          (''purchase_count'', IntV (purchases_of uids atypes u))]) ?ids"
    by blast
  have "map (\<lambda>r. map_of r ''user_id'') (rows df) = map (\<lambda>u. Some (IntV u)) ?ids"
    by (simp add: r)
  moreover have "sorted ?ids" by simp
  ultimately show ?thesis using df by blast
qed

theorem engineer_rows_sorted_witness:
  "length [''view'', ''click'', ''view''] = length [3, 1, 2 :: int] \<and>
   length [10, 20, 30 :: int] = length [3, 1, 2 :: int] \<and>
   length [''A'', ''B'', ''C''] = length [3, 1, 2 :: int] \<and>
   (\<exists>df ids. engineer_user_activity_features
        (batch [3, 1, 2] [''view'', ''click'', ''view''] [10, 20, 30] [''A'', ''B'', ''C'']) = Inr df \<and>
     map (\<lambda>r. map_of r ''user_id'') (rows df) = map (\<lambda>u. Some (IntV u)) ids \<and>
     sorted ids)"
proof -
  have h1: "length [''view'', ''click'', ''view''] = length [3, 1, 2 :: int]" by simp
  have h2: "length [10, 20, 30 :: int] = length [3, 1, 2 :: int]" by simp
  have h3: "length [''A'', ''B'', ''C''] = length [3, 1, 2 :: int]" by simp
  show ?thesis
    by (rule conjI[OF h1 conjI[OF h2 conjI[OF h3 engineer_rows_sorted[OF h1 h2 h3]]]])
qed


lemma relabel_aggregates:
  assumes "\<forall>i<length uids. (atypes ! i = ''view'' \<longleftrightarrow> atypes' ! i = ''view'') \<and>
                           (atypes ! i = ''purchase'' \<longleftrightarrow> atypes' ! i = ''purchase'')"
  shows "viewed_of uids atypes' pids u = viewed_of uids atypes pids u"
    and "purchases_of uids atypes' u = purchases_of uids atypes u"
proof -
  have "{i. i < length uids \<and> uids ! i = u \<and> atypes' ! i = ''view''} =
        {i. i < length uids \<and> uids ! i = u \<and> atypes ! i = ''view''}"
    using assms by auto
  then show "viewed_of uids atypes' pids u = viewed_of uids atypes pids u"
    by (simp add: viewed_of_def)
  have "{i. i < length uids \<and> uids ! i = u \<and> atypes' ! i = ''purchase''} =
        {i. i < length uids \<and> uids ! i = u \<and> atypes ! i = ''purchase''}"
    using assms by auto
  then show "purchases_of uids atypes' u = purchases_of uids atypes u"
    by (simp add: purchases_of_def)
qed

text \<open>
  Claim C5. Two well-formed batches with the same user ids, timestamps and product ids, whose
  activity types agree wherever either of them is \<open>view\<close> or \<open>purchase\<close>, give the same
  \<open>unique_products_viewed\<close> and \<open>purchase_count\<close> for every user: the rows of the two
  frames, read at the user id and these two fields, are the same list, and that list holds
  the two aggregates of the first batch for each of its users.
\<close>

theorem engineer_relabel_independent:
  assumes "length atypes = length uids" "length atypes' = length uids"
    and "length stamps = length uids" "length pids = length uids"
    and "\<forall>i<length uids. (atypes ! i = ''view'' \<longleftrightarrow> atypes' ! i = ''view'') \<and>
                            (atypes ! i = ''purchase'' \<longleftrightarrow> atypes' ! i = ''purchase'')"
  shows "\<exists>df df' ids. engineer_user_activity_features (batch uids atypes stamps pids) = Inr df \<and>
     engineer_user_activity_features (batch uids atypes' stamps pids) = Inr df' \<and>
     set ids = set uids \<and>
     map (\<lambda>r. (map_of r ''user_id'', map_of r ''unique_products_viewed'', map_of r ''purchase_count''))
         (rows df) =
       map (\<lambda>u. (Some (IntV u), Some (IntV (viewed_of uids atypes pids u)),
                  Some (IntV (purchases_of uids atypes u)))) ids \<and>
     map (\<lambda>r. (map_of r ''user_id'', map_of r ''unique_products_viewed'', map_of r ''purchase_count''))
         (rows df') =
     map (\<lambda>r. (map_of r ''user_id'', map_of r ''unique_products_viewed'', map_of r ''purchase_count''))
         (rows df)"
proof -
  let ?ids = "sorted_list_of_set (set uids)"
  from engineer_rows[OF assms(1,3,4)] obtain df where
    df: "engineer_user_activity_features (batch uids atypes stamps pids) = Inr df"
    and r: "rows df = map (\<lambda>u. [(''user_id'', IntV u),
                          (''total_activities'', IntV (total_of uids u)),
                          (''unique_products_viewed'', IntV (viewed_of uids atypes pids u)),
                          (''purchase_count'', IntV (purchases_of uids atypes u))]) ?ids"
    by blast
  from engineer_rows[OF assms(2,3,4)] obtain df' where
    df': "engineer_user_activity_features (batch uids atypes' stamps pids) = Inr df'"
    and r': "rows df' = map (\<lambda>u. [(''user_id'', IntV u),
                          (''total_activities'', IntV (total_of uids u)),
                          (''unique_products_viewed'', IntV (viewed_of uids atypes' pids u)),
                          (''purchase_count'', IntV (purchases_of uids atypes' u))]) ?ids"
    by blast
  have "set ?ids = set uids" by simp
  moreover have "map (\<lambda>r. (map_of r ''user_id'', map_of r ''unique_products_viewed'', map_of r ''purchase_count''))
         (rows df) =
       map (\<lambda>u. (Some (IntV u), Some (IntV (viewed_of uids atypes pids u)),
                  Some (IntV (purchases_of uids atypes u)))) ?ids"
    by (simp add: r)
  moreover have "map (\<lambda>r. (map_of r ''user_id'', map_of r ''unique_products_viewed'', map_of r ''purchase_count''))
         (rows df') =
     map (\<lambda>r. (map_of r ''user_id'', map_of r ''unique_products_viewed'', map_of r ''purchase_count''))
         (rows df)"
    by (simp add: r r' relabel_aggregates[OF assms(5)])
  ultimately show ?thesis using df df' by blast
qed

theorem engineer_relabel_independent_witness:
  "length [''view'', ''click'', ''purchase''] = length [1, 1, 2 :: int] \<and>
   length [''view'', ''scroll'', ''purchase''] = length [1, 1, 2 :: int] \<and>
   length [10, 20, 30 :: int] = length [1, 1, 2 :: int] \<and>
   length [''A'', ''B'', ''C''] = length [1, 1, 2 :: int] \<and>
   (\<exists>df df' ids.
     engineer_user_activity_features
       (batch [1, 1, 2] [''view'', ''click'', ''purchase''] [10, 20, 30] [''A'', ''B'', ''C'']) = Inr df \<and>
     engineer_user_activity_features
       (batch [1, 1, 2] [''view'', ''scroll'', ''purchase''] [10, 20, 30] [''A'', ''B'', ''C'']) = Inr df' \<and>
     set ids = set [1, 1, 2] \<and>
     map (\<lambda>r. (map_of r ''user_id'', map_of r ''unique_products_viewed'', map_of r ''purchase_count''))
         (rows df) =
       map (\<lambda>u. (Some (IntV u),
                  Some (IntV (viewed_of [1, 1, 2] [''view'', ''click'', ''purchase''] [''A'', ''B'', ''C''] u)),
                  Some (IntV (purchases_of [1, 1, 2] [''view'', ''click'', ''purchase''] u)))) ids \<and>
     map (\<lambda>r. (map_of r ''user_id'', map_of r ''unique_products_viewed'', map_of r ''purchase_count''))
         (rows df') =
     map (\<lambda>r. (map_of r ''user_id'', map_of r ''unique_products_viewed'', map_of r ''purchase_count''))
         (rows df))"
proof -
  have h1: "length [''view'', ''click'', ''purchase''] = length [1, 1, 2 :: int]" by simp
  have h2: "length [''view'', ''scroll'', ''purchase''] = length [1, 1, 2 :: int]" by simp
  have h3: "length [10, 20, 30 :: int] = length [1, 1, 2 :: int]" by simp
  have h4: "length [''A'', ''B'', ''C''] = length [1, 1, 2 :: int]" by simp
  have h5: "\<forall>i<length [1, 1, 2 :: int].
      ([''view'', ''click'', ''purchase''] ! i = ''view'' \<longleftrightarrow>
       [''view'', ''scroll'', ''purchase''] ! i = ''view'') \<and>
      ([''view'', ''click'', ''purchase''] ! i = ''purchase'' \<longleftrightarrow>
       [''view'', ''scroll'', ''purchase''] ! i = ''purchase'')"
    by (simp add: less_Suc_eq all_conj_distrib numeral_3_eq_3)
  show ?thesis
    by (rule conjI[OF h1 conjI[OF h2 conjI[OF h3 conjI[OF h4
          engineer_relabel_independent[OF h1 h2 h3 h4 h5]]]]])
qed

text \<open>
  Claim C6. The batch whose four sequences are present and empty is accepted: the result is
  a frame, with the four columns and no row. The helper \<open>calculate_total_activities\<close> accepts
  it as well, since the dict of four empty lists is not an empty dict.
\<close>

theorem engineer_empty_batch:
  "engineer_user_activity_features (batch [] [] [] []) =
     Inr \<lparr>index_len = 0,
          columns = [(''user_id'', []), (''total_activities'', []),
                     (''unique_products_viewed'', []), (''purchase_count'', [])]\<rparr> \<and>
   rows \<lparr>index_len = 0,
         columns = [(''user_id'', []), (''total_activities'', []),
                    (''unique_products_viewed'', []), (''purchase_count'', [])]\<rparr> = [] \<and>
   calculate_total_activities (batch [] [] [] []) = Inr Map.empty"
proof -
  have "engineer_user_activity_features (batch [] [] [] []) =
     Inr \<lparr>index_len = 0,
          columns = [(''user_id'', []), (''total_activities'', []),
                     (''unique_products_viewed'', []), (''purchase_count'', [])]\<rparr>"
    by (simp add: engineer_well_formed)
  moreover have "calculate_total_activities (batch [] [] [] []) = Inr Map.empty"
    by (simp add: calculate_total_activities_def batch_def)
  ultimately show ?thesis by (simp add: rows_def)
qed

text \<open>
  Claim C9. On a well-formed batch every row of the returned frame holds three integers that
  are not negative, and the distinct viewed products and the purchases together are at most
  the total of the activities.
\<close>

theorem engineer_counts_bounded:
  assumes "length atypes = length uids" "length stamps = length uids" "length pids = length uids"
  shows "\<exists>df. engineer_user_activity_features (batch uids atypes stamps pids) = Inr df \<and>
     length (rows df) = card (set uids) \<and>
     (\<forall>r\<in>set (rows df). \<exists>t v p.
         map_of r ''total_activities'' = Some (IntV t) \<and>
         map_of r ''unique_products_viewed'' = Some (IntV v) \<and>
         map_of r ''purchase_count'' = Some (IntV p) \<and>
         0 \<le> t \<and> 0 \<le> v \<and> 0 \<le> p \<and> v + p \<le> t)"
proof -
  let ?ids = "sorted_list_of_set (set uids)"
  from engineer_rows[OF assms] obtain df where
    df: "engineer_user_activity_features (batch uids atypes stamps pids) = Inr df"
    and r: "rows df = map (\<lambda>u. [(''user_id'', IntV u),
                          (''total_activities'', IntV (total_of uids u)),
                          (''unique_products_viewed'', IntV (viewed_of uids atypes pids u)),
                          (''purchase_count'', IntV (purchases_of uids atypes u))]) ?ids"
    by blast
  have "length (rows df) = card (set uids)" by (simp add: r)
  moreover have "\<forall>r\<in>set (rows df). \<exists>t v p.
         map_of r ''total_activities'' = Some (IntV t) \<and>
         map_of r ''unique_products_viewed'' = Some (IntV v) \<and>
         map_of r ''purchase_count'' = Some (IntV p) \<and>
         0 \<le> t \<and> 0 \<le> v \<and> 0 \<le> p \<and> v + p \<le> t"
    by (simp add: r aggregate_bounds)
  ultimately show ?thesis using df by blast
qed

theorem engineer_counts_bounded_witness:
  "length [''view'', ''view'', ''purchase'', ''click''] = length [4, 4, 4, 9 :: int] \<and>
   length [10, 20, 30, 40 :: int] = length [4, 4, 4, 9 :: int] \<and>
   length [''G'', ''G'', ''G'', ''H''] = length [4, 4, 4, 9 :: int] \<and>
   (\<exists>df. engineer_user_activity_features
        (batch [4, 4, 4, 9] [''view'', ''view'', ''purchase'', ''click'']
           [10, 20, 30, 40] [''G'', ''G'', ''G'', ''H'']) = Inr df \<and>
     length (rows df) = card (set [4, 4, 4, 9 :: int]) \<and>
     (\<forall>r\<in>set (rows df). \<exists>t v p.
         map_of r ''total_activities'' = Some (IntV t) \<and>
         map_of r ''unique_products_viewed'' = Some (IntV v) \<and>
         map_of r ''purchase_count'' = Some (IntV p) \<and>
         0 \<le> t \<and> 0 \<le> v \<and> 0 \<le> p \<and> v + p \<le> t))"
proof -
  have h1: "length [''view'', ''view'', ''purchase'', ''click''] = length [4, 4, 4, 9 :: int]" by simp
  have h2: "length [10, 20, 30, 40 :: int] = length [4, 4, 4, 9 :: int]" by simp
  have h3: "length [''G'', ''G'', ''G'', ''H''] = length [4, 4, 4, 9 :: int]" by simp
  show ?thesis
    by (rule conjI[OF h1 conjI[OF h2 conjI[OF h3 engineer_counts_bounded[OF h1 h2 h3]]]])
qed


lemma engineer_column_names:
  assumes "engineer_user_activity_features rd = Inr df"
  shows "map fst (columns df) =
           [''user_id'', ''total_activities'', ''unique_products_viewed'', ''purchase_count'']"
proof -
  have "well_formed rd"
  proof (rule ccontr)
    assume "\<not> well_formed rd"
    from engineer_ill_formed[OF this] assms show False by auto
  qed
  then obtain uids atypes stamps pids where "rd = batch uids atypes stamps pids"
      "length atypes = length uids" "length stamps = length uids" "length pids = length uids"
    unfolding well_formed_batch by blast
  with assms show ?thesis by (auto simp: engineer_well_formed)
qed

text \<open>
  Claim C7, as the code has it. Every field name of an engineered row is declared by the
  feature view: \<open>user_id\<close> in its list of entities, which holds nothing else, and every
  other field name, that is each of the three counts, in its feature list, which holds
  nothing else either. The field names are the entity followed by the feature names, in that
  order.
\<close>

theorem engineer_fields_in_feature_view:
  assumes "engineer_user_activity_features rd = Inr df"
  shows "(\<forall>c\<in>set (map fst (columns df)).
            if c = ''user_id'' then c \<in> set (entities define_feature_view)
            else c \<in> set (map name (features define_feature_view))) \<and>
         entities define_feature_view = [''user_id''] \<and>
         map fst (columns df) = ''user_id'' # map name (features define_feature_view) \<and>
         {''total_activities'', ''unique_products_viewed'', ''purchase_count''} \<subseteq>
           set (map fst (columns df))"
  using engineer_column_names[OF assms] by (simp add: define_feature_view_def)

theorem engineer_fields_in_feature_view_witness:
  "engineer_user_activity_features (batch [5] [''click''] [1704106800] [''H'']) =
     Inr \<lparr>index_len = 1,
          columns = [(''user_id'', [IntV 5]), (''total_activities'', [IntV 1]),
                     (''unique_products_viewed'', [IntV 0]), (''purchase_count'', [IntV 0])]\<rparr> \<and>
   entities define_feature_view = [''user_id''] \<and>
   map fst (columns \<lparr>index_len = 1,
          columns = [(''user_id'', [IntV 5]), (''total_activities'', [IntV 1]),
                     (''unique_products_viewed'', [IntV 0]), (''purchase_count'', [IntV 0])]\<rparr>) =
     ''user_id'' # map name (features define_feature_view)"
proof -
  have e: "engineer_user_activity_features (batch [5] [''click''] [1704106800] [''H'']) =
     Inr \<lparr>index_len = 1,
          columns = [(''user_id'', [IntV 5]), (''total_activities'', [IntV 1]),
                     (''unique_products_viewed'', [IntV 0]), (''purchase_count'', [IntV 0])]\<rparr>"
    by code_simp
  from engineer_fields_in_feature_view[OF e] e show ?thesis
    by blast
qed

text \<open>
  The claim as it is worded fails at the field \<open>user_id\<close>: it is a field of every engineered
  row and is not in the feature list of the feature view.
\<close>

theorem engineer_fields_counterexample:
  "engineer_user_activity_features (batch [5] [''click''] [1704106800] [''H'']) =
     Inr \<lparr>index_len = 1,
          columns = [(''user_id'', [IntV 5]), (''total_activities'', [IntV 1]),
                     (''unique_products_viewed'', [IntV 0]), (''purchase_count'', [IntV 0])]\<rparr> \<and>
   ''user_id'' \<in> set (map fst (columns \<lparr>index_len = 1,
          columns = [(''user_id'', [IntV 5]), (''total_activities'', [IntV 1]),
                     (''unique_products_viewed'', [IntV 0]), (''purchase_count'', [IntV 0])]\<rparr>)) \<and>
   ''user_id'' \<notin> set (map name (features define_feature_view))"
proof -
  have "engineer_user_activity_features (batch [5] [''click''] [1704106800] [''H'']) =
     Inr \<lparr>index_len = 1,
          columns = [(''user_id'', [IntV 5]), (''total_activities'', [IntV 1]),
                     (''unique_products_viewed'', [IntV 0]), (''purchase_count'', [IntV 0])]\<rparr>"
    by code_simp
  then show ?thesis by (simp add: define_feature_view_def)
qed

section \<open>The two retrieval simulations\<close>


lemma rows_field:
  assumes "map_of (columns df) k = Some c" "length c = index_len df"
  shows "map (\<lambda>r. map_of r k) (rows df) = map Some c"
proof -
  have "map_of (map (\<lambda>(k, c). (k, c ! i)) (columns df)) k = Some (c ! i)" for i
    using assms(1) by (simp add: map_of_map)
  then have "map (\<lambda>r. map_of r k) (rows df) = map (\<lambda>i. Some (c ! i)) [0..<length c]"
    by (simp add: rows_def assms(2) comp_def)
  also have "\<dots> = map Some (map (\<lambda>i. c ! i) [0..<length c])" by simp
  also have "\<dots> = map Some c" by (simp only: map_nth)
  finally show ?thesis .
qed

lemma getitem_Some: "map_of (columns df) k = Some c \<Longrightarrow> getitem df k = Inr c"
  by (simp add: getitem_def)

lemma setitem_columns:
  "map_of (columns (setitem df k c)) = (map_of (columns df))(k \<mapsto> c)"
  "index_len (setitem df k c) = index_len df"
  by (simp_all add: setitem_def update_conv')

lemma historical_loop_columns:
  assumes "map_of (columns df) ''user_id'' = Some c"
  shows "\<exists>df'. historical_loop df fs = Inr df' \<and> index_len df' = index_len df \<and>
     (\<forall>k. map_of (columns df') k =
        (if k \<in> set fs then
           (case simulated_factor k of
              Some m \<Rightarrow> Some (mul_column c m)
            | None \<Rightarrow> map_of (columns df) k)
         else map_of (columns df) k))"
  using assms
proof (induction fs arbitrary: df)
  case Nil
  then show ?case by simp
next
  case (Cons f fs)
  show ?case
  proof (cases "simulated_factor f")
    case None
    then have n: "f \<noteq> ''total_activities''" "f \<noteq> ''unique_products_viewed''" "f \<noteq> ''purchase_count''"
      by (auto simp: simulated_factor_def split: if_splits)
    from Cons.IH[OF Cons.prems] obtain df' where
      "historical_loop df fs = Inr df'" "index_len df' = index_len df"
      "\<forall>k. map_of (columns df') k =
        (if k \<in> set fs then
           (case simulated_factor k of
              Some m \<Rightarrow> Some (mul_column c m)
            | None \<Rightarrow> map_of (columns df) k)
         else map_of (columns df) k)"
      by blast
    with n None show ?thesis by auto
  next
    case (Some m)
    then have fu: "f \<noteq> ''user_id''"
      by (auto simp: simulated_factor_def split: if_splits)
    let ?df1 = "setitem df f (mul_column c m)"
    have u1: "map_of (columns ?df1) ''user_id'' = Some c"
      using Cons.prems fu by (simp add: setitem_columns)
    have step: "historical_loop df (f # fs) = historical_loop ?df1 fs"
      using Some Cons.prems
      by (auto simp: simulated_factor_def getitem_Some split: if_splits)
    from Cons.IH[OF u1] obtain df' where
      d: "historical_loop ?df1 fs = Inr df'" "index_len df' = index_len ?df1"
      "\<forall>k. map_of (columns df') k =
        (if k \<in> set fs then
           (case simulated_factor k of
              Some m \<Rightarrow> Some (mul_column c m)
            | None \<Rightarrow> map_of (columns ?df1) k)
         else map_of (columns ?df1) k)"
      by blast
    have "\<forall>k. map_of (columns df') k =
        (if k \<in> set (f # fs) then
           (case simulated_factor k of
              Some m \<Rightarrow> Some (mul_column c m)
            | None \<Rightarrow> map_of (columns df) k)
         else map_of (columns df) k)"
      using d(3) Some by (auto simp: setitem_columns split: option.splits)
    with d(1,2) step show ?thesis by (simp add: setitem_columns)
  qed
qed

lemma online_feature_loop_map:
  "map_of (online_feature_loop d uid fs) k =
     (if k \<in> set fs then
        (case simulated_factor k of Some m \<Rightarrow> Some (uid * m) | None \<Rightarrow> map_of d k)
      else map_of d k)"
proof (induction fs arbitrary: d)
  case Nil
  then show ?case by simp
next
  case (Cons f fs)
  show ?case
    by (simp add: Cons.IH update_conv' simulated_factor_def split: option.splits)
qed

lemma online_loop_result:
  assumes "map (\<lambda>r. r ''user_id'') ers = map Some uids"
  shows "online_loop acc ers fs =
           Inr (acc @ map (\<lambda>u. online_feature_loop [(''user_id'', u)] u fs) uids)"
  using assms
proof (induction ers arbitrary: acc uids)
  case Nil
  then show ?case by simp
next
  case (Cons e ers)
  then obtain u us where "uids = u # us" "e ''user_id'' = Some u"
      "map (\<lambda>r. r ''user_id'') ers = map Some us"
    by (cases uids) auto
  with Cons.IH[of us] show ?case by simp
qed

lemma records_column:
  "map_of (columns (DataFrame_of_records rs)) k =
     (if k \<in> set (concat (map (map fst) rs)) then
        Some (map (\<lambda>r. case map_of r k of None \<Rightarrow> NaN | Some v \<Rightarrow> IntV v) rs)
      else None)"
  by (simp add: DataFrame_of_records_def map_of_map_restrict restrict_map_def)


lemma records_column_None:
  assumes "\<forall>r\<in>set rs. map_of r k = None"
  shows "map_of (columns (DataFrame_of_records rs)) k = None"
proof -
  have "k \<notin> set (concat (map (map fst) rs))"
    using assms by (auto simp: map_of_eq_None_iff)
  then show ?thesis by (simp add: records_column)
qed

lemma online_frame:
  assumes "map (\<lambda>r. r ''user_id'') ers = map Some uids"
  shows "\<exists>don. simulate_online_features ers fs = Inr don \<and> index_len don = length uids \<and>
     (\<forall>k v. (\<forall>u. map_of (online_feature_loop [(''user_id'', u)] u (features_or_default fs)) k = Some (v u)) \<longrightarrow>
        map (\<lambda>r. map_of r k) (rows don) = map (\<lambda>u. Some (IntV (v u))) uids \<and>
        (uids \<noteq> [] \<longrightarrow> map_of (columns don) k = Some (map (\<lambda>u. IntV (v u)) uids))) \<and>
     (\<forall>k. (\<forall>u. map_of (online_feature_loop [(''user_id'', u)] u (features_or_default fs)) k = None) \<longrightarrow>
        map_of (columns don) k = None)"
proof -
  let ?g = "\<lambda>u. online_feature_loop [(''user_id'', u)] u (features_or_default fs)"
  let ?rs = "map ?g uids"
  let ?don = "DataFrame_of_records ?rs"
  have res: "simulate_online_features ers fs = Inr ?don"
    by (simp add: simulate_online_features_def online_loop_result[OF assms])
  have len: "index_len ?don = length uids"
    by (simp add: DataFrame_of_records_def)
  have "map (\<lambda>r. map_of r k) (rows ?don) = map (\<lambda>u. Some (IntV (v u))) uids \<and>
        (uids \<noteq> [] \<longrightarrow> map_of (columns ?don) k = Some (map (\<lambda>u. IntV (v u)) uids))"
    if v: "\<forall>u. map_of (?g u) k = Some (v u)" for k v
  proof (cases "uids = []")
    case True
    then show ?thesis by (simp add: rows_def DataFrame_of_records_def)
  next
    case False
    then obtain u where u: "u \<in> set uids" by (cases uids) auto
    from v have "map_of (?g u) k \<noteq> None" by simp
    then have "k \<in> fst ` set (?g u)" by (simp add: map_of_eq_None_iff)
    with u have "k \<in> set (concat (map (map fst) ?rs))" by auto
    then have col: "map_of (columns ?don) k = Some (map (\<lambda>u. IntV (v u)) uids)"
      unfolding records_column using v by (simp add: comp_def)
    from rows_field[OF col] len have "map (\<lambda>r. map_of r k) (rows ?don) = map (\<lambda>u. Some (IntV (v u))) uids"
      by (simp add: comp_def)
    with col show ?thesis by simp
  qed
  moreover have "map_of (columns ?don) k = None" if "\<forall>u. map_of (?g u) k = None" for k
    by (rule records_column_None) (use that in auto)
  ultimately show ?thesis using res len by blast
qed

lemma online_user_id_field:
  "map_of (online_feature_loop [(''user_id'', u)] u fs) ''user_id'' = Some u"
  by (simp add: online_feature_loop_map simulated_factor_def)

lemma online_feature_field:
  assumes "k \<in> set fs" "simulated_factor k = Some m"
  shows "map_of (online_feature_loop [(''user_id'', u)] u fs) k = Some (u * m)"
  using assms by (simp add: online_feature_loop_map)

lemma online_other_field:
  assumes "k \<noteq> ''user_id''" "k \<notin> set fs \<or> simulated_factor k = None"
  shows "map_of (online_feature_loop [(''user_id'', u)] u fs) k = None"
  using assms by (auto simp: online_feature_loop_map)


lemma mul_column_IntV: "mul_column (map IntV us) m = map (\<lambda>u. IntV (int64_wrap (u * m))) us"
  by (simp add: mul_column_def)

lemma historical_frame:
  assumes "map_of (columns entity_df) ''user_id'' = Some (map IntV uids)"
  shows "\<exists>dh. simulate_historical_features entity_df fs = Inr dh \<and>
     index_len dh = index_len entity_df \<and>
     map_of (columns dh) ''user_id'' = Some (map IntV uids) \<and>
     (\<forall>k. k \<notin> set (features_or_default fs) \<or> simulated_factor k = None \<longrightarrow>
          map_of (columns dh) k = map_of (columns entity_df) k) \<and>
     (\<forall>k m. k \<in> set (features_or_default fs) \<and> simulated_factor k = Some m \<longrightarrow>
        map_of (columns dh) k = Some (map (\<lambda>u. IntV (int64_wrap (u * m))) uids))"
proof -
  from historical_loop_columns[OF assms, of "features_or_default fs"] obtain dh where
    d: "historical_loop entity_df (features_or_default fs) = Inr dh" "index_len dh = index_len entity_df"
    and c: "\<forall>k. map_of (columns dh) k =
        (if k \<in> set (features_or_default fs) then
           (case simulated_factor k of
              Some m \<Rightarrow> Some (mul_column (map IntV uids) m)
            | None \<Rightarrow> map_of (columns entity_df) k)
         else map_of (columns entity_df) k)"
    by blast
  have "map_of (columns dh) ''user_id'' = Some (map IntV uids)"
    using c assms by (simp add: simulated_factor_def)
  moreover have "\<forall>k. k \<notin> set (features_or_default fs) \<or> simulated_factor k = None \<longrightarrow>
          map_of (columns dh) k = map_of (columns entity_df) k"
    using c by auto
  moreover have "\<forall>k m. k \<in> set (features_or_default fs) \<and> simulated_factor k = Some m \<longrightarrow>
        map_of (columns dh) k = Some (map (\<lambda>u. IntV (int64_wrap (u * m))) uids)"
    using c by (simp add: mul_column_IntV)
  ultimately show ?thesis using d by (auto simp: simulate_historical_features_def)
qed





lemma known_factor:
  "f \<in> {''total_activities'', ''unique_products_viewed'', ''purchase_count''} \<Longrightarrow>
     \<exists>m. simulated_factor f = Some m"
  by (auto simp: simulated_factor_def)

lemma unknown_factor:
  "f \<notin> {''total_activities'', ''unique_products_viewed'', ''purchase_count''} \<Longrightarrow>
     simulated_factor f = None"
  by (simp add: simulated_factor_def)

lemma rows_member_field:
  assumes "map (\<lambda>r. map_of r k) (rows df) = map (\<lambda>u. Some (IntV (v u))) us" "r \<in> set (rows df)"
  shows "\<exists>x. map_of r k = Some (IntV x)"
proof -
  from assms(2) have "map_of r k \<in> set (map (\<lambda>r. map_of r k) (rows df))" by simp
  then have "map_of r k \<in> set (map (\<lambda>u. Some (IntV (v u))) us)" by (simp only: assms(1))
  then show ?thesis by auto
qed

text \<open>
  Claim C8, as the code has it. For every requested list of names, an entity table with a
  \<open>user_id\<close> column of integers, and a list of entity rows that each have a \<open>user_id\<close>: both
  simulations return a frame with one row per input entity, in the order of the input. A
  requested name that is one of the three known feature names holds an integer in every row
  of the result; it is a column of the historical result, and of the online result when the
  list of entity rows is not empty. Any other name adds nothing: the historical simulation
  leaves every other column of the table as it was, and the online result has no other
  column than \<open>user_id\<close>.
\<close>

theorem simulate_rows_and_columns:
  assumes "map_of (columns entity_df) ''user_id'' = Some (map IntV hids)"
    and "index_len entity_df = length hids"
    and "map (\<lambda>r. r ''user_id'') entity_rows = map Some uids"
  shows "(\<exists>dh. simulate_historical_features entity_df fs = Inr dh \<and>
           length (rows dh) = length (rows entity_df) \<and>
           map (\<lambda>r. map_of r ''user_id'') (rows dh) = map (\<lambda>r. map_of r ''user_id'') (rows entity_df) \<and>
           (\<forall>f\<in>set (features_or_default fs) \<inter>
                  {''total_activities'', ''unique_products_viewed'', ''purchase_count''}.
              (\<forall>r\<in>set (rows dh). \<exists>x. map_of r f = Some (IntV x)) \<and>
              (\<exists>col. map_of (columns dh) f = Some col \<and> length col = length (rows dh) \<and>
                     NaN \<notin> set col)) \<and>
           (\<forall>k. k \<notin> set (features_or_default fs) \<inter>
                      {''total_activities'', ''unique_products_viewed'', ''purchase_count''} \<longrightarrow>
                 map_of (columns dh) k = map_of (columns entity_df) k)) \<and>
         (\<exists>don. simulate_online_features entity_rows fs = Inr don \<and>
           length (rows don) = length entity_rows \<and>
           map (\<lambda>r. map_of r ''user_id'') (rows don) = map (\<lambda>u. Some (IntV u)) uids \<and>
           (\<forall>f\<in>set (features_or_default fs) \<inter>
                  {''total_activities'', ''unique_products_viewed'', ''purchase_count''}.
              (\<forall>r\<in>set (rows don). \<exists>x. map_of r f = Some (IntV x)) \<and>
              (entity_rows \<noteq> [] \<longrightarrow>
                 (\<exists>col. map_of (columns don) f = Some col \<and> length col = length (rows don) \<and>
                        NaN \<notin> set col))) \<and>
           (\<forall>k. k \<noteq> ''user_id'' \<and>
                 k \<notin> set (features_or_default fs) \<inter>
                      {''total_activities'', ''unique_products_viewed'', ''purchase_count''} \<longrightarrow>
                 map_of (columns don) k = None))"
proof (rule conjI)
  let ?fs = "features_or_default fs"
  let ?known = "{''total_activities'', ''unique_products_viewed'', ''purchase_count''}"
  from historical_frame[OF assms(1), of fs] obtain dh where
    dh: "simulate_historical_features entity_df fs = Inr dh"
    and lh: "index_len dh = index_len entity_df"
    and uh: "map_of (columns dh) ''user_id'' = Some (map IntV hids)"
    and oh: "\<forall>k. k \<notin> set ?fs \<or> simulated_factor k = None \<longrightarrow>
          map_of (columns dh) k = map_of (columns entity_df) k"
    and ch: "\<forall>k m. k \<in> set ?fs \<and> simulated_factor k = Some m \<longrightarrow>
        map_of (columns dh) k = Some (map (\<lambda>u. IntV (int64_wrap (u * m))) hids)"
    by blast
  have l: "length (rows dh) = length (rows entity_df)"
    using lh by (simp add: rows_def)
  have "map (\<lambda>r. map_of r ''user_id'') (rows dh) = map Some (map IntV hids)"
    by (rule rows_field[OF uh]) (simp add: lh assms(2))
  moreover have "map (\<lambda>r. map_of r ''user_id'') (rows entity_df) = map Some (map IntV hids)"
    by (rule rows_field[OF assms(1)]) (simp add: assms(2))
  ultimately have u: "map (\<lambda>r. map_of r ''user_id'') (rows dh) =
      map (\<lambda>r. map_of r ''user_id'') (rows entity_df)"
    by simp
  have known: "(\<forall>r\<in>set (rows dh). \<exists>x. map_of r f = Some (IntV x)) \<and>
      (\<exists>col. map_of (columns dh) f = Some col \<and> length col = length (rows dh) \<and> NaN \<notin> set col)"
    if f: "f \<in> set ?fs \<inter> ?known" for f
  proof -
    from f have "f \<in> ?known" by (rule IntD2)
    from known_factor[OF this] obtain m where m: "simulated_factor f = Some m" ..
    from f have f': "f \<in> set ?fs" by (rule IntD1)
    from ch[rule_format, of f m] f' m
    have c: "map_of (columns dh) f = Some (map (\<lambda>u. IntV (int64_wrap (u * m))) hids)"
      by simp
    have len: "length (map (\<lambda>u. IntV (int64_wrap (u * m))) hids) = index_len dh"
      by (simp add: lh assms(2))
    from rows_field[OF c len]
    have p: "map (\<lambda>r. map_of r f) (rows dh) = map (\<lambda>u. Some (IntV (int64_wrap (u * m)))) hids"
      by (simp add: comp_def)
    have "\<forall>r\<in>set (rows dh). \<exists>x. map_of r f = Some (IntV x)"
      by (intro ballI) (rule rows_member_field[OF p])
    moreover have "length (map (\<lambda>u. IntV (int64_wrap (u * m))) hids) = length (rows dh)"
      using len by (simp add: rows_def)
    moreover have "NaN \<notin> set (map (\<lambda>u. IntV (int64_wrap (u * m))) hids)" by auto
    ultimately show ?thesis using c by simp
  qed
  then have known': "\<forall>f\<in>set ?fs \<inter> ?known.
              (\<forall>r\<in>set (rows dh). \<exists>x. map_of r f = Some (IntV x)) \<and>
              (\<exists>col. map_of (columns dh) f = Some col \<and> length col = length (rows dh) \<and>
                     NaN \<notin> set col)"
    by (intro ballI)
  have other: "\<forall>k. k \<notin> set ?fs \<inter> ?known \<longrightarrow> map_of (columns dh) k = map_of (columns entity_df) k"
  proof (intro allI impI)
    fix k
    assume "k \<notin> set ?fs \<inter> ?known"
    then have "k \<notin> set ?fs \<or> k \<notin> ?known" by (simp only: Int_iff de_Morgan_conj)
    then have "k \<notin> set ?fs \<or> simulated_factor k = None"
      using unknown_factor[of k] by (elim disjE) simp_all
    with oh[rule_format, of k] show "map_of (columns dh) k = map_of (columns entity_df) k"
      by simp
  qed
  show "\<exists>dh. simulate_historical_features entity_df fs = Inr dh \<and>
           length (rows dh) = length (rows entity_df) \<and>
           map (\<lambda>r. map_of r ''user_id'') (rows dh) = map (\<lambda>r. map_of r ''user_id'') (rows entity_df) \<and>
           (\<forall>f\<in>set ?fs \<inter> ?known.
              (\<forall>r\<in>set (rows dh). \<exists>x. map_of r f = Some (IntV x)) \<and>
              (\<exists>col. map_of (columns dh) f = Some col \<and> length col = length (rows dh) \<and>
                     NaN \<notin> set col)) \<and>
           (\<forall>k. k \<notin> set ?fs \<inter> ?known \<longrightarrow>
                 map_of (columns dh) k = map_of (columns entity_df) k)"
    by (intro exI[of _ dh] conjI; (rule dh l u known' other))
next
  let ?fs = "features_or_default fs"
  let ?known = "{''total_activities'', ''unique_products_viewed'', ''purchase_count''}"
  from online_frame[OF assms(3), of fs] obtain don where
    don: "simulate_online_features entity_rows fs = Inr don"
    and lo: "index_len don = length uids"
    and co: "\<forall>k v. (\<forall>u. map_of (online_feature_loop [(''user_id'', u)] u ?fs) k = Some (v u)) \<longrightarrow>
        map (\<lambda>r. map_of r k) (rows don) = map (\<lambda>u. Some (IntV (v u))) uids \<and>
        (uids \<noteq> [] \<longrightarrow> map_of (columns don) k = Some (map (\<lambda>u. IntV (v u)) uids))"
    and no: "\<forall>k. (\<forall>u. map_of (online_feature_loop [(''user_id'', u)] u ?fs) k = None) \<longrightarrow>
        map_of (columns don) k = None"
    by blast
  have len: "length entity_rows = length uids"
    using assms(3) by (metis length_map)
  have l: "length (rows don) = length entity_rows"
    using lo len by (simp add: rows_def)
  from co[rule_format, of "''user_id''" "\<lambda>u. u"] online_user_id_field
  have u: "map (\<lambda>r. map_of r ''user_id'') (rows don) = map (\<lambda>u. Some (IntV u)) uids"
    by simp
  have known: "(\<forall>r\<in>set (rows don). \<exists>x. map_of r f = Some (IntV x)) \<and>
      (entity_rows \<noteq> [] \<longrightarrow>
         (\<exists>col. map_of (columns don) f = Some col \<and> length col = length (rows don) \<and> NaN \<notin> set col))"
    if f: "f \<in> set ?fs \<inter> ?known" for f
  proof -
    from f have "f \<in> ?known" by (rule IntD2)
    from known_factor[OF this] obtain m where m: "simulated_factor f = Some m" ..
    from f have f': "f \<in> set ?fs" by (rule IntD1)
    from co[rule_format, of f "\<lambda>u. u * m"] online_feature_field[OF f' m]
    have p: "map (\<lambda>r. map_of r f) (rows don) = map (\<lambda>u. Some (IntV (u * m))) uids"
      and c: "uids \<noteq> [] \<longrightarrow> map_of (columns don) f = Some (map (\<lambda>u. IntV (u * m)) uids)"
      by simp_all
    have "\<forall>r\<in>set (rows don). \<exists>x. map_of r f = Some (IntV x)"
      by (intro ballI) (rule rows_member_field[OF p])
    moreover have "\<exists>col. map_of (columns don) f = Some col \<and> length col = length (rows don) \<and>
        NaN \<notin> set col" if "entity_rows \<noteq> []"
    proof -
      from that len have "uids \<noteq> []" by auto
      with c have "map_of (columns don) f = Some (map (\<lambda>u. IntV (u * m)) uids)" by simp
      moreover have "length (map (\<lambda>u. IntV (u * m)) uids) = length (rows don)"
        by (simp add: rows_def lo)
      moreover have "NaN \<notin> set (map (\<lambda>u. IntV (u * m)) uids)" by auto
      ultimately show ?thesis by simp
    qed
    ultimately show ?thesis by simp
  qed
  then have known': "\<forall>f\<in>set ?fs \<inter> ?known.
              (\<forall>r\<in>set (rows don). \<exists>x. map_of r f = Some (IntV x)) \<and>
              (entity_rows \<noteq> [] \<longrightarrow>
                 (\<exists>col. map_of (columns don) f = Some col \<and> length col = length (rows don) \<and>
                        NaN \<notin> set col))"
    by (intro ballI)
  have other: "\<forall>k. k \<noteq> ''user_id'' \<and> k \<notin> set ?fs \<inter> ?known \<longrightarrow> map_of (columns don) k = None"
  proof (intro allI impI)
    fix k
    assume k: "k \<noteq> ''user_id'' \<and> k \<notin> set ?fs \<inter> ?known"
    then have k1: "k \<noteq> ''user_id''" and "k \<notin> set ?fs \<inter> ?known" by simp_all
    then have "k \<notin> set ?fs \<or> k \<notin> ?known" by (simp only: Int_iff de_Morgan_conj)
    then have k2: "k \<notin> set ?fs \<or> simulated_factor k = None"
      using unknown_factor[of k] by (elim disjE) simp_all
    have "\<forall>u. map_of (online_feature_loop [(''user_id'', u)] u ?fs) k = None"
      by (intro allI) (rule online_other_field[OF k1 k2])
    with no[rule_format, of k] show "map_of (columns don) k = None" by simp
  qed
  show "\<exists>don. simulate_online_features entity_rows fs = Inr don \<and>
           length (rows don) = length entity_rows \<and>
           map (\<lambda>r. map_of r ''user_id'') (rows don) = map (\<lambda>u. Some (IntV u)) uids \<and>
           (\<forall>f\<in>set ?fs \<inter> ?known.
              (\<forall>r\<in>set (rows don). \<exists>x. map_of r f = Some (IntV x)) \<and>
              (entity_rows \<noteq> [] \<longrightarrow>
                 (\<exists>col. map_of (columns don) f = Some col \<and> length col = length (rows don) \<and>
                        NaN \<notin> set col))) \<and>
           (\<forall>k. k \<noteq> ''user_id'' \<and> k \<notin> set ?fs \<inter> ?known \<longrightarrow>
                 map_of (columns don) k = None)"
    by (intro exI[of _ don] conjI; (rule don l u known' other))
qed

theorem simulate_rows_and_columns_witness:
  "map_of (columns \<lparr>index_len = 2, columns = [(''user_id'', [IntV 4, IntV 2]),
        (''event_timestamp'', [IntV 1704067200, IntV 1704153600])]\<rparr>) ''user_id''
     = Some (map IntV [4, 2]) \<and>
   index_len \<lparr>index_len = 2, columns = [(''user_id'', [IntV 4, IntV 2]),
        (''event_timestamp'', [IntV 1704067200, IntV 1704153600])]\<rparr> = length [4, 2 :: int] \<and>
   map (\<lambda>r. r ''user_id'') [[''user_id'' \<mapsto> 3], [''user_id'' \<mapsto> 1]] = map Some [3, 1 :: int] \<and>
   (\<exists>dh. simulate_historical_features
            \<lparr>index_len = 2, columns = [(''user_id'', [IntV 4, IntV 2]),
              (''event_timestamp'', [IntV 1704067200, IntV 1704153600])]\<rparr>
            (Some [''purchase_count'', ''clicks'']) = Inr dh \<and>
      length (rows dh) = length (rows \<lparr>index_len = 2, columns = [(''user_id'', [IntV 4, IntV 2]),
              (''event_timestamp'', [IntV 1704067200, IntV 1704153600])]\<rparr>) \<and>
      map (\<lambda>r. map_of r ''user_id'') (rows dh) =
        map (\<lambda>r. map_of r ''user_id'') (rows \<lparr>index_len = 2, columns = [(''user_id'', [IntV 4, IntV 2]),
              (''event_timestamp'', [IntV 1704067200, IntV 1704153600])]\<rparr>) \<and>
      (\<forall>f\<in>set (features_or_default (Some [''purchase_count'', ''clicks''])) \<inter>
             {''total_activities'', ''unique_products_viewed'', ''purchase_count''}.
         (\<forall>r\<in>set (rows dh). \<exists>x. map_of r f = Some (IntV x)) \<and>
         (\<exists>col. map_of (columns dh) f = Some col \<and> length col = length (rows dh) \<and>
                NaN \<notin> set col)) \<and>
      (\<forall>k. k \<notin> set (features_or_default (Some [''purchase_count'', ''clicks''])) \<inter>
                 {''total_activities'', ''unique_products_viewed'', ''purchase_count''} \<longrightarrow>
            map_of (columns dh) k =
            map_of (columns \<lparr>index_len = 2, columns = [(''user_id'', [IntV 4, IntV 2]),
              (''event_timestamp'', [IntV 1704067200, IntV 1704153600])]\<rparr>) k)) \<and>
   (\<exists>don. simulate_online_features [[''user_id'' \<mapsto> 3], [''user_id'' \<mapsto> 1]]
             (Some [''purchase_count'', ''clicks'']) = Inr don \<and>
      length (rows don) = length [[''user_id'' \<mapsto> 3], [''user_id'' \<mapsto> 1 :: int]] \<and>
      map (\<lambda>r. map_of r ''user_id'') (rows don) = map (\<lambda>u. Some (IntV u)) [3, 1] \<and>
      (\<forall>f\<in>set (features_or_default (Some [''purchase_count'', ''clicks''])) \<inter>
             {''total_activities'', ''unique_products_viewed'', ''purchase_count''}.
         (\<forall>r\<in>set (rows don). \<exists>x. map_of r f = Some (IntV x)) \<and>
         ([[''user_id'' \<mapsto> 3], [''user_id'' \<mapsto> 1 :: int]] \<noteq> [] \<longrightarrow>
            (\<exists>col. map_of (columns don) f = Some col \<and> length col = length (rows don) \<and>
                   NaN \<notin> set col))) \<and>
      (\<forall>k. k \<noteq> ''user_id'' \<and>
            k \<notin> set (features_or_default (Some [''purchase_count'', ''clicks''])) \<inter>
                 {''total_activities'', ''unique_products_viewed'', ''purchase_count''} \<longrightarrow>
            map_of (columns don) k = None))"
proof -
  have h1: "map_of (columns \<lparr>index_len = 2, columns = [(''user_id'', [IntV 4, IntV 2]),
        (''event_timestamp'', [IntV 1704067200, IntV 1704153600])]\<rparr>) ''user_id''
     = Some (map IntV [4, 2])"
    by simp
  have h2: "index_len \<lparr>index_len = 2, columns = [(''user_id'', [IntV 4, IntV 2]),
        (''event_timestamp'', [IntV 1704067200, IntV 1704153600])]\<rparr> = length [4, 2 :: int]"
    by simp
  have h3: "map (\<lambda>r. r ''user_id'') [[''user_id'' \<mapsto> 3], [''user_id'' \<mapsto> 1]] = map Some [3, 1 :: int]"
    by simp
  show ?thesis
    by (rule conjI[OF h1 conjI[OF h2 conjI[OF h3
          simulate_rows_and_columns[OF h1 h2 h3, of "Some [''purchase_count'', ''clicks'']"]]]])
qed

text \<open>
  The claim as it is worded fails in three ways. A requested name that is none of the three
  known ones is passed over by both simulations, and is no column of the result. An empty
  list of entity rows gives the online simulation a frame without any column. An entity
  without a \<open>user_id\<close> makes both simulations raise \<open>KeyError\<close>.
\<close>

theorem simulate_rows_and_columns_counterexample:
  "simulate_online_features [[''user_id'' \<mapsto> 1]] (Some [''clicks'']) =
     Inr \<lparr>index_len = 1, columns = [(''user_id'', [IntV 1])]\<rparr> \<and>
   simulate_historical_features \<lparr>index_len = 1, columns = [(''user_id'', [IntV 1])]\<rparr> (Some [''clicks'']) =
     Inr \<lparr>index_len = 1, columns = [(''user_id'', [IntV 1])]\<rparr> \<and>
   map_of (columns \<lparr>index_len = 1, columns = [(''user_id'', [IntV 1])]\<rparr>) ''clicks'' = None \<and>
   simulate_online_features [] None = Inr \<lparr>index_len = 0, columns = []\<rparr> \<and>
   simulate_online_features [[''id'' \<mapsto> 1]] None = Inl (KeyError ''user_id'') \<and>
   simulate_historical_features \<lparr>index_len = 1, columns = [(''id'', [IntV 1])]\<rparr> None =
     Inl (KeyError ''user_id'')"
  by (simp add: simulate_online_features_def simulate_historical_features_def
      features_or_default_def DataFrame_of_records_def getitem_def)

end
